theory Spec2Isabelle
  imports Complex_Main
begin

section \<open>Data model\<close>

text \<open>
  Modelled from the spec: the class \<open>Point\<close> lives in \<open>point.py\<close>, outside the file
  verified here. The spec gives it a latitude, a longitude and an optional timestamp.
  Python floats are idealised as reals.
\<close>

record point =
  lat :: real
  lon :: real
  time :: "int option"

text \<open>The exceptions the modelled code can raise.\<close>

datatype error = IndexError | KeyError | AttributeError

text \<open>
  The value of the key \<open>'suggestion_type'\<close> of a candidate dictionary: one of the
  strings \<open>'KB'\<close>, \<open>'GOOGLE'\<close>, \<open>'FOURSQUARE'\<close>.
\<close>

datatype suggestion_type = KB | GOOGLE | FOURSQUARE

text \<open>
  A candidate is the dictionary built in \<open>infer_location\<close>, \<open>query_google\<close> and
  \<open>query_foursquare\<close>. The knowledge-base candidates have no key \<open>'types'\<close>, hence
  the option.
\<close>

record candidate =
  label :: string
  distance :: real
  types :: "string list option"
  suggestion_type :: suggestion_type

subsection \<open>Python dictionaries\<close>

text \<open>
  A Python \<open>dict\<close> iterates in insertion order and holds each key once: an association
  list with distinct keys. Assigning to a key that is present keeps its place.
\<close>

type_synonym ('k, 'v) dict = "('k \<times> 'v) list"

fun dict_set :: "('k, 'v) dict \<Rightarrow> 'k \<Rightarrow> 'v \<Rightarrow> ('k, 'v) dict" where
  "dict_set [] k v = [(k, v)]"
| "dict_set ((k', v') # kvs) k v =
     (if k' = k then (k', v) # kvs else (k', v') # dict_set kvs k v)"

definition dict_keys :: "('k, 'v) dict \<Rightarrow> 'k list" where
  "dict_keys d = map fst d"

section \<open>The proximity cache\<close>

text \<open>
  \<open>from_cache\<close> (lines 21-24). The loop runs over \<open>list(cache.keys())\<close>; the first
  key closer to \<open>point\<close> than \<open>threshold\<close> ends it with \<open>cache[entry]\<close>. Falling out
  of the loop returns Python's \<open>None\<close>, here \<open>None\<close>. The distance of \<open>Point\<close> is
  the parameter \<open>pdist\<close>, called as \<open>point.distance(entry)\<close>.
\<close>

fun from_cache_loop ::
  "(point \<Rightarrow> point \<Rightarrow> real) \<Rightarrow> (point, 'v) dict \<Rightarrow> point list \<Rightarrow> point \<Rightarrow> real \<Rightarrow> 'v option" where
  "from_cache_loop pdist cache [] p threshold = None"
| "from_cache_loop pdist cache (entry # entries) p threshold =
     (if pdist p entry < threshold then map_of cache entry
      else from_cache_loop pdist cache entries p threshold)"

definition from_cache ::
  "(point \<Rightarrow> point \<Rightarrow> real) \<Rightarrow> (point, 'v) dict \<Rightarrow> point \<Rightarrow> real \<Rightarrow> 'v option" where
  "from_cache pdist cache p threshold =
     from_cache_loop pdist cache (dict_keys cache) p threshold"


section \<open>Cluster centroids\<close>

text \<open>
  Modelled from the spec: \<open>Point.gen2arr\<close> is defined in \<open>point.py\<close>; the spec has the
  points handed to the clustering in (lon, lat) order, which is also how
  \<open>compute_centroid\<close> reads them (\<open>p[0]\<close> the longitude, \<open>p[1]\<close> the latitude).
\<close>

type_synonym arr = "real \<times> real"

definition gen2arr :: "point \<Rightarrow> arr" where
  "gen2arr p = (lon p, lat p)"

text \<open>
  \<open>np.mean\<close> over a list of floats, idealised over the reals. Every list averaged by
  \<open>update_location_centroid\<close> has at least one element.
\<close>

definition np_mean :: "real list \<Rightarrow> real" where
  "np_mean xs = sum_list xs / real (length xs)"

text \<open>\<open>compute_centroid\<close> (lines 35-45).\<close>

definition compute_centroid :: "arr list \<Rightarrow> point" where
  "compute_centroid points =
     (let lats = map snd points;
          lons = map fst points
      in \<lparr>lat = np_mean lats, lon = np_mean lons, time = None\<rparr>)"

text \<open>\<open>clusters[label].append(x)\<close>: the list stored under the key grows in place.\<close>

definition dict_append :: "('k, 'v list) dict \<Rightarrow> 'k \<Rightarrow> 'v \<Rightarrow> ('k, 'v list) dict" where
  "dict_append d k x = map (\<lambda>(k', vs). if k' = k then (k', vs @ [x]) else (k', vs)) d"

text \<open>
  The grouping loop of lines 68-73, over \<open>enumerate(p_cluster.labels_)\<close>; \<open>i\<close> is the
  running index. \<open>points[i]\<close> raises \<open>IndexError\<close> past the end of \<open>points\<close>.
\<close>

fun group_by_label ::
  "int list \<Rightarrow> nat \<Rightarrow> arr list \<Rightarrow> (int, arr list) dict \<Rightarrow> error + (int, arr list) dict" where
  "group_by_label [] i points clusters = Inr clusters"
| "group_by_label (l # ls) i points clusters =
     (if i < length points then
        (if l \<in> set (dict_keys clusters)
         then group_by_label ls (Suc i) points (dict_append clusters l (points ! i))
         else group_by_label ls (Suc i) points (dict_set clusters l [points ! i]))
      else Inl IndexError)"

text \<open>
  The selection loop of lines 75-85 over \<open>clusters.items()\<close>. The state is
  \<open>(centroids, biggest_centroid_l, biggest_centroid)\<close>; \<open>biggest_centroid_l\<close> starts
  at minus infinity, here \<open>None\<close>, below every length.
\<close>

fun ge_biggest :: "nat \<Rightarrow> nat option \<Rightarrow> bool" where
  "ge_biggest n None = True"
| "ge_biggest n (Some m) = (m \<le> n)"

fun select_biggest ::
  "(int \<times> arr list) list \<Rightarrow> point list \<times> nat option \<times> point option
     \<Rightarrow> point list \<times> nat option \<times> point option" where
  "select_biggest [] st = st"
| "select_biggest ((l, n_cluster) # rest) (centroids, biggest_centroid_l, biggest_centroid) =
     (let centroid = compute_centroid n_cluster;
          centroids' = centroids @ [centroid]
      in if 0 \<le> l \<and> ge_biggest (length n_cluster) biggest_centroid_l
         then select_biggest rest (centroids', Some (length n_cluster), Some centroid)
         else select_biggest rest (centroids', biggest_centroid_l, biggest_centroid))"

text \<open>
  \<open>update_location_centroid\<close> (lines 47-90). The two library calls are parameters:
  \<open>estimate_meters_to_deg\<close> (from \<open>utils.py\<close>, called with precision 6) and
  \<open>dbscan_labels eps min_samples points\<close>, the \<open>labels_\<close> of a fitted
  \<open>DBSCAN(eps, min_samples)\<close>, one label per point, noise being \<open>-1\<close>.
\<close>

definition update_location_centroid ::
  "(real \<Rightarrow> real) \<Rightarrow> (real \<Rightarrow> int \<Rightarrow> arr list \<Rightarrow> int list)
     \<Rightarrow> point \<Rightarrow> point list \<Rightarrow> real \<Rightarrow> int \<Rightarrow> error + (point \<times> point list)" where
  "update_location_centroid estimate_meters_to_deg dbscan_labels p cluster max_distance min_samples =
     (let cluster' = cluster @ [p];
          points = map gen2arr cluster';
          eps = estimate_meters_to_deg max_distance;
          labels = dbscan_labels eps min_samples points
      in case group_by_label labels 0 points [] of
           Inl e \<Rightarrow> Inl e
         | Inr clusters \<Rightarrow>
             (case select_biggest clusters ([], None, None) of
                (centroids, biggest_centroid_l, biggest_centroid) \<Rightarrow>
                  (case biggest_centroid of
                     None \<Rightarrow> Inr (compute_centroid points, cluster')
                   | Some c \<Rightarrow> Inr (c, cluster'))))"

section \<open>Provider adapters\<close>

text \<open>
  The HTTP layer is outside the code verified here. A request carries what the URL
  and the headers are built from; a response has its status code and its parsed body:
  \<open>Some rs\<close> when \<open>response['results']\<close> is the list \<open>rs\<close> of well-formed places,
  \<open>None\<close> when the body lacks what the adapter reads (a \<open>KeyError\<close>).
\<close>

datatype request =
    FoursquareGet real real real string
  | GoogleGet real real real string

record fs_place =
  fs_name :: string
  fs_distance :: real
  fs_categories :: "string list"

record gg_place =
  gg_name :: string
  gg_lat :: real
  gg_lng :: real
  gg_types :: "string list"

record 'a response =
  status_code :: int
  json :: "'a list option"

text \<open>
  The module's globals, and a log of the calls of \<open>requests.get\<close> so that network
  access is observable.
\<close>

record world =
  GG_CACHE :: "(point, candidate list) dict"
  FS_CACHE :: "(point, candidate list) dict"
  requests :: "request list"

text \<open>\<open>google_insert_cache\<close> and \<open>foursquare_insert_cache\<close> (lines 26-32).\<close>

definition google_insert_cache :: "point \<Rightarrow> candidate list \<Rightarrow> world \<Rightarrow> world" where
  "google_insert_cache p values w = w\<lparr>GG_CACHE := dict_set (GG_CACHE w) p values\<rparr>"

definition foursquare_insert_cache :: "point \<Rightarrow> candidate list \<Rightarrow> world \<Rightarrow> world" where
  "foursquare_insert_cache p values w = w\<lparr>FS_CACHE := dict_set (FS_CACHE w) p values\<rparr>"

text \<open>
  \<open>query_foursquare\<close> (lines 92-144). An absent key is \<open>None\<close>; \<open>not key\<close> holds of
  \<open>None\<close> and of the empty string. \<open>if from_cache(...)\<close> holds of a non-empty list
  only: \<open>None\<close> and the empty list both fall through to the request.
\<close>

definition query_foursquare ::
  "(point \<Rightarrow> point \<Rightarrow> real) \<Rightarrow> (request \<Rightarrow> fs_place response)
     \<Rightarrow> point \<Rightarrow> real \<Rightarrow> string option \<Rightarrow> world \<Rightarrow> (error + candidate list) \<times> world" where
  "query_foursquare pdist fs_get p max_distance key w =
     (case key of
        None \<Rightarrow> (Inr [], w)
      | Some k \<Rightarrow>
          if k = [] then (Inr [], w)
          else
            (case from_cache pdist (FS_CACHE w) p max_distance of
               Some (c # cs) \<Rightarrow> (Inr (c # cs), w)
             | _ \<Rightarrow>
                 (let url = FoursquareGet (lat p) (lon p) max_distance k;
                      req = fs_get url;
                      w' = w\<lparr>requests := requests w @ [url]\<rparr>
                  in if status_code req \<noteq> 200 then (Inr [], w')
                     else
                       (case json req of
                          None \<Rightarrow> (Inl KeyError, w')
                        | Some results \<Rightarrow>
                            (let result = map (\<lambda>res.
                                   \<lparr>label = fs_name res,
                                    distance = fs_distance res,
                                    types = Some (fs_categories res),
                                    suggestion_type = FOURSQUARE\<rparr>) results
                             in (Inr result, foursquare_insert_cache p result w'))))))"

text \<open>
  \<open>query_google\<close> (lines 147-192). The distance of a place is computed here, as
  \<open>Point(lat, lng, None).distance(point)\<close>.
\<close>

definition query_google ::
  "(point \<Rightarrow> point \<Rightarrow> real) \<Rightarrow> (request \<Rightarrow> gg_place response)
     \<Rightarrow> point \<Rightarrow> real \<Rightarrow> string option \<Rightarrow> world \<Rightarrow> (error + candidate list) \<times> world" where
  "query_google pdist gg_get p max_distance key w =
     (case key of
        None \<Rightarrow> (Inr [], w)
      | Some k \<Rightarrow>
          if k = [] then (Inr [], w)
          else
            (case from_cache pdist (GG_CACHE w) p max_distance of
               Some (c # cs) \<Rightarrow> (Inr (c # cs), w)
             | _ \<Rightarrow>
                 (let url = GoogleGet (lat p) (lon p) max_distance k;
                      req = gg_get url;
                      w' = w\<lparr>requests := requests w @ [url]\<rparr>
                  in if status_code req \<noteq> 200 then (Inr [], w')
                     else
                       (case json req of
                          None \<Rightarrow> (Inl KeyError, w')
                        | Some results \<Rightarrow>
                            (let final_results = map (\<lambda>local.
                                   \<lparr>label = gg_name local,
                                    distance = pdist \<lparr>lat = gg_lat local, lon = gg_lng local, time = None\<rparr> p,
                                    types = Some (gg_types local),
                                    suggestion_type = GOOGLE\<rparr>) results
                             in (Inr final_results, google_insert_cache p final_results w'))))))"

section \<open>The Location class\<close>

text \<open>
  The attribute \<open>centroid\<close> is documented as a \<open>Point\<close>, but \<open>from_json\<close> stores
  whatever the document has under \<open>'position'\<close>: the value is either a point object or
  the JSON form of one. \<open>Point.to_json\<close> (from \<open>point.py\<close>) is a parameter, with
  any type \<open>'j\<close> of JSON forms.
\<close>

datatype 'j position = PointObj point | JsonForm 'j

record 'j location =
  loc_label :: string
  centroid :: "'j position"
  other :: "candidate list"
  debug :: bool

text \<open>The dictionary \<open>to_json\<close> returns and \<open>from_json\<close> reads.\<close>

record ('j, 'o) location_json =
  json_label :: string
  json_position :: 'j
  json_other :: 'o

text \<open>
  \<open>Location.distance\<close> (lines 267-275) and \<open>Location.to_json\<close> (lines 277-287) call
  a method of \<open>Point\<close> on the centroid: an \<open>AttributeError\<close> when it is not a point.
\<close>

definition Location_distance ::
  "(point \<Rightarrow> point \<Rightarrow> real) \<Rightarrow> 'j location \<Rightarrow> point \<Rightarrow> error + real" where
  "Location_distance pdist self pos =
     (case centroid self of
        PointObj c \<Rightarrow> Inr (pdist c pos)
      | JsonForm j \<Rightarrow> Inl AttributeError)"

definition to_json :: "(point \<Rightarrow> 'j) \<Rightarrow> 'j location \<Rightarrow> error + ('j, candidate list) location_json" where
  "to_json point_to_json self =
     (case centroid self of
        PointObj c \<Rightarrow>
          Inr \<lparr>json_label = loc_label self, json_position = point_to_json c, json_other = other self\<rparr>
      | JsonForm j \<Rightarrow> Inl AttributeError)"

text \<open>\<open>Location.from_json\<close> (lines 289-296); \<open>debug\<close> defaults to \<open>False\<close>.\<close>

definition from_json :: "('j, 'o) location_json \<Rightarrow> 'j location" where
  "from_json js =
     \<lparr>loc_label = json_label js, centroid = JsonForm (json_position js), other = [], debug = False\<rparr>"

section \<open>Inferring a location\<close>

text \<open>
  Python's slice \<open>xs[:n]\<close>: the first \<open>n\<close> elements, and for a negative \<open>n\<close> all but
  the last \<open>-n\<close>.
\<close>

definition slice_to :: "'a list \<Rightarrow> int \<Rightarrow> 'a list" where
  "slice_to xs n = (if 0 \<le> n then take (nat n) xs else take (length xs - nat (- n)) xs)"

text \<open>
  Lines 217-227 of \<open>infer_location\<close>: the knowledge-base candidates. The query
  function may be \<open>None\<close>; it returns triples whose third component is ignored.
\<close>

definition kb_locations ::
  "(point \<Rightarrow> point \<Rightarrow> real) \<Rightarrow> (point \<Rightarrow> real \<Rightarrow> (string \<times> point \<times> 'x) list) option
     \<Rightarrow> point \<Rightarrow> real \<Rightarrow> candidate list" where
  "kb_locations pdist location_query p max_distance =
     (case location_query of
        None \<Rightarrow> []
      | Some q \<Rightarrow>
          map (\<lambda>(l, c, _). \<lparr>label = l, distance = pdist c p, types = None, suggestion_type = KB\<rparr>)
            (q p max_distance))"

text \<open>
  Lines 229-241: the providers are asked only when the knowledge base gave at most
  \<open>limit\<close> candidates, Google first. An exception of an adapter ends the call.
\<close>

definition truthy_key :: "string option \<Rightarrow> bool" where
  "truthy_key key = (case key of None \<Rightarrow> False | Some k \<Rightarrow> k \<noteq> [])"

definition query_providers ::
  "(point \<Rightarrow> point \<Rightarrow> real) \<Rightarrow> (request \<Rightarrow> gg_place response) \<Rightarrow> (request \<Rightarrow> fs_place response)
     \<Rightarrow> point \<Rightarrow> candidate list \<Rightarrow> real \<Rightarrow> bool \<Rightarrow> string option \<Rightarrow> bool \<Rightarrow> string option
     \<Rightarrow> int \<Rightarrow> world \<Rightarrow> (error + candidate list) \<times> world" where
  "query_providers pdist gg_get fs_get p locations max_distance
       use_google google_key use_foursquare foursquare_key limit w =
     (if int (length locations) \<le> limit then
        (case (if use_google \<and> truthy_key google_key
               then query_google pdist gg_get p max_distance google_key w
               else (Inr [], w)) of
           (Inl e, w1) \<Rightarrow> (Inl e, w1)
         | (Inr google_locs, w1) \<Rightarrow>
             (case (if use_foursquare \<and> truthy_key foursquare_key
                    then query_foursquare pdist fs_get p max_distance foursquare_key w1
                    else (Inr [], w1)) of
                (Inl e, w2) \<Rightarrow> (Inl e, w2)
              | (Inr foursquare_locs, w2) \<Rightarrow> (Inr (google_locs @ foursquare_locs), w2)))
      else (Inr [], w))"

text \<open>
  Lines 243-251: ranking and the construction of the result. \<open>sorted\<close> is stable, as
  \<open>sort_key\<close> is. \<open>locations[0]\<close> raises \<open>IndexError\<close> on an empty list.
\<close>

definition rank_locations ::
  "point \<Rightarrow> candidate list \<Rightarrow> candidate list \<Rightarrow> int \<Rightarrow> error + 'j location" where
  "rank_locations p locations api_locations limit =
     (let api_sorted = (if 0 < length api_locations
                        then sort_key distance api_locations else api_locations)
      in if 0 < length locations then
           (let locations' = slice_to (sort_key distance locations @ api_sorted) limit
            in case locations' of
                 [] \<Rightarrow> Inl IndexError
               | first # _ \<Rightarrow>
                   Inr \<lparr>loc_label = label first, centroid = PointObj p,
                        other = locations', debug = False\<rparr>)
         else Inr \<lparr>loc_label = ''#?'', centroid = PointObj p,
                   other = api_sorted, debug = False\<rparr>)"

text \<open>\<open>infer_location\<close> (lines 194-251).\<close>

definition infer_location ::
  "(point \<Rightarrow> point \<Rightarrow> real) \<Rightarrow> (request \<Rightarrow> gg_place response) \<Rightarrow> (request \<Rightarrow> fs_place response)
     \<Rightarrow> point \<Rightarrow> (point \<Rightarrow> real \<Rightarrow> (string \<times> point \<times> 'x) list) option \<Rightarrow> real
     \<Rightarrow> bool \<Rightarrow> string option \<Rightarrow> bool \<Rightarrow> string option \<Rightarrow> int \<Rightarrow> world
     \<Rightarrow> (error + 'j location) \<times> world" where
  "infer_location pdist gg_get fs_get p location_query max_distance
       use_google google_key use_foursquare foursquare_key limit w =
     (let locations = kb_locations pdist location_query p max_distance
      in case query_providers pdist gg_get fs_get p locations max_distance
                use_google google_key use_foursquare foursquare_key limit w of
           (Inl e, w') \<Rightarrow> (Inl e, w')
         | (Inr api_locations, w') \<Rightarrow> (rank_locations p locations api_locations limit, w'))"

section \<open>Inputs of the worked examples\<close>

text \<open>
  The worked examples place their points on one meridian and take the distance of two
  points to be the difference of their latitudes; \<open>line_distance\<close> stands in for
  \<open>Point.distance\<close> there.
\<close>

definition at_lat :: "real \<Rightarrow> point" where
  "at_lat x = \<lparr>lat = x, lon = 0, time = None\<rparr>"

definition line_distance :: "point \<Rightarrow> point \<Rightarrow> real" where
  "line_distance a b = \<bar>lat a - lat b\<bar>"

definition empty_world :: world where
  "empty_world = \<lparr>GG_CACHE = [], FS_CACHE = [], requests = []\<rparr>"

definition place :: "string \<Rightarrow> real \<Rightarrow> suggestion_type \<Rightarrow> candidate" where
  "place l d s = \<lparr>label = l, distance = d, types = Some [], suggestion_type = s\<rparr>"

section \<open>Properties of the cache\<close>

lemma from_cache_loop_none:
  "\<forall>k \<in> set ks. \<not> pdist p k < threshold \<Longrightarrow> from_cache_loop pdist cache ks p threshold = None"
  by (induction ks) auto

lemma from_cache_loop_first:
  assumes "i < length ks"
    and "pdist p (ks ! i) < threshold"
    and "\<forall>j<i. \<not> pdist p (ks ! j) < threshold"
  shows "from_cache_loop pdist cache ks p threshold = map_of cache (ks ! i)"
  using assms
proof (induction ks arbitrary: i)
  case Nil
  then show ?case by simp
next
  case (Cons k ks)
  show ?case
  proof (cases i)
    case 0
    with Cons.prems show ?thesis by simp
  next
    case (Suc n)
    from Cons.prems(3) Suc have k: "\<not> pdist p k < threshold" by auto
    from Cons.prems Suc have "from_cache_loop pdist cache ks p threshold = map_of cache (ks ! n)"
      by (intro Cons.IH) auto
    with k Suc show ?thesis by simp
  qed
qed

lemma map_of_nth_distinct:
  "distinct (map fst d) \<Longrightarrow> i < length d \<Longrightarrow> map_of d (fst (d ! i)) = Some (snd (d ! i))"
  by (metis map_of_is_SomeI nth_mem prod.collapse)

text \<open>
  Claim C5. The lookup returns the value of the first key, in insertion order, whose
  distance to the query point is strictly below the threshold; when every key is at the
  threshold or farther (a key at exactly the threshold included), the lookup finds nothing.
\<close>

theorem from_cache_first_strictly_closer:
  assumes "distinct (dict_keys cache)"
  shows "(\<forall>i<length cache.
            pdist p (fst (cache ! i)) < threshold \<and>
            (\<forall>j<i. \<not> pdist p (fst (cache ! j)) < threshold)
            \<longrightarrow> from_cache pdist cache p threshold = Some (snd (cache ! i)))
       \<and> ((\<forall>k \<in> set (dict_keys cache). threshold \<le> pdist p k)
            \<longrightarrow> from_cache pdist cache p threshold = None)"
proof (intro conjI allI impI)
  fix i
  assume i: "i < length cache"
    and h: "pdist p (fst (cache ! i)) < threshold \<and> (\<forall>j<i. \<not> pdist p (fst (cache ! j)) < threshold)"
  have "from_cache_loop pdist cache (dict_keys cache) p threshold
          = map_of cache (dict_keys cache ! i)"
    using i h by (intro from_cache_loop_first) (auto simp: dict_keys_def)
  also have "\<dots> = Some (snd (cache ! i))"
    using assms i by (simp add: dict_keys_def map_of_nth_distinct)
  finally show "from_cache pdist cache p threshold = Some (snd (cache ! i))"
    by (simp add: from_cache_def)
next
  assume "\<forall>k \<in> set (dict_keys cache). threshold \<le> pdist p k"
  then have "\<forall>k \<in> set (dict_keys cache). \<not> pdist p k < threshold" by auto
  then show "from_cache pdist cache p threshold = None"
    unfolding from_cache_def by (rule from_cache_loop_none)
qed

theorem from_cache_first_strictly_closer_witness:
  "distinct (dict_keys [(at_lat 100, [1::nat]), (at_lat 7, [2]), (at_lat 3, [3])])
   \<and> from_cache line_distance [(at_lat 100, [1::nat]), (at_lat 7, [2]), (at_lat 3, [3])] (at_lat 0) 7
       = Some [3]"
proof -
  let ?c = "[(at_lat 100, [1::nat]), (at_lat 7, [2]), (at_lat 3, [3])]"
  have d: "distinct (dict_keys ?c)"
    by (simp add: dict_keys_def at_lat_def)
  have "2 < length ?c \<longrightarrow>
          line_distance (at_lat 0) (fst (?c ! 2)) < 7 \<and>
          (\<forall>j<2. \<not> line_distance (at_lat 0) (fst (?c ! j)) < 7)
          \<longrightarrow> from_cache line_distance ?c (at_lat 0) 7 = Some (snd (?c ! 2))"
    using from_cache_first_strictly_closer [OF d, of line_distance "at_lat 0" 7] by blast
  moreover have "\<forall>j<2::nat. \<not> line_distance (at_lat 0) (fst (?c ! j)) < 7"
    by (simp add: less_2_cases_iff line_distance_def at_lat_def)
  ultimately have "from_cache line_distance ?c (at_lat 0) 7 = Some [3]"
    by (simp add: line_distance_def at_lat_def)
  with d show ?thesis by simp
qed

section \<open>Properties of the provider adapters\<close>

text \<open>
  Claim C7. Called with an absent or empty key, \<open>query_google\<close> and \<open>query_foursquare\<close>
  return the empty list and leave the whole state as it was: neither cache changes and
  no request is added to the log.
\<close>

theorem query_without_key:
  assumes "\<not> truthy_key key"
  shows "query_google pdist gg_get p max_distance key w = (Inr [], w)
       \<and> query_foursquare pdist fs_get p max_distance key w = (Inr [], w)"
  using assms
  by (simp add: truthy_key_def query_google_def query_foursquare_def split: option.splits)

theorem query_without_key_witness:
  "\<not> truthy_key (Some [])
   \<and> query_google line_distance (\<lambda>r. \<lparr>status_code = 200, json = Some []\<rparr>)
        (at_lat 0) 10 (Some []) empty_world = (Inr [], empty_world)
   \<and> query_foursquare line_distance (\<lambda>r. \<lparr>status_code = 200, json = Some []\<rparr>)
        (at_lat 0) 10 (Some []) empty_world = (Inr [], empty_world)"
proof -
  have k: "\<not> truthy_key (Some [])" by (simp add: truthy_key_def)
  from query_without_key [OF k] k show ?thesis by blast
qed

lemma map_of_dict_set_same: "map_of (dict_set d k v) k = Some v"
  by (induction d) auto

lemma dict_keys_dict_set:
  "dict_keys (dict_set d k v) = (if k \<in> set (dict_keys d) then dict_keys d else dict_keys d @ [k])"
proof (induction d)
  case Nil
  then show ?case by (simp add: dict_keys_def)
next
  case (Cons kv d)
  obtain k' v' where kv: "kv = (k', v')" by (cases kv)
  show ?case
  proof (cases "k' = k")
    case True
    with kv show ?thesis by (simp add: dict_keys_def)
  next
    case False
    with kv Cons.IH show ?thesis by (simp add: dict_keys_def)
  qed
qed

lemma from_cache_loop_skip:
  assumes "k \<in> set ks"
    and "pdist p k < threshold"
    and "\<forall>k' \<in> set (takeWhile (\<lambda>x. x \<noteq> k) ks). \<not> pdist p k' < threshold"
  shows "from_cache_loop pdist cache ks p threshold = map_of cache k"
  using assms by (induction ks) auto

lemma from_cache_after_insert:
  assumes "pdist p k < threshold"
    and "\<forall>k' \<in> set (takeWhile (\<lambda>x. x \<noteq> k) (dict_keys cache)). \<not> pdist p k' < threshold"
  shows "from_cache pdist (dict_set cache k v) p threshold = Some v"
proof -
  let ?ks = "dict_keys (dict_set cache k v)"
  have mem: "k \<in> set ?ks" by (simp add: dict_keys_dict_set)
  have "takeWhile (\<lambda>x. x \<noteq> k) ?ks = takeWhile (\<lambda>x. x \<noteq> k) (dict_keys cache)"
    by (simp add: dict_keys_dict_set takeWhile_append takeWhile_eq_all_conv [THEN iffD2])
  with assms(2) have far: "\<forall>k' \<in> set (takeWhile (\<lambda>x. x \<noteq> k) ?ks). \<not> pdist p k' < threshold"
    by simp
  have "from_cache_loop pdist (dict_set cache k v) ?ks p threshold = map_of (dict_set cache k v) k"
    using mem assms(1) far by (rule from_cache_loop_skip)
  then show ?thesis by (simp add: from_cache_def map_of_dict_set_same)
qed

text \<open>
  Claim C6, amended. Take a key within the threshold of the query point such that no
  key standing before it in the cache is within the threshold. After a list is stored
  under that key, the lookup returns exactly that list; an adapter with a key returns a
  non-empty list as it is, without a request and without touching the state, and treats
  an empty list as a miss: it sends its request.
\<close>

theorem insert_then_lookup:
  assumes "pdist p k < threshold"
    and "\<forall>k' \<in> set (takeWhile (\<lambda>x. x \<noteq> k) (dict_keys cache)). \<not> pdist p k' < threshold"
    and "key \<noteq> []"
  shows "from_cache pdist (dict_set cache k v) p threshold = Some v
       \<and> (v \<noteq> [] \<longrightarrow>
           query_google pdist gg_get p threshold (Some key) (google_insert_cache k v (w\<lparr>GG_CACHE := cache\<rparr>))
             = (Inr v, google_insert_cache k v (w\<lparr>GG_CACHE := cache\<rparr>)))
       \<and> (v \<noteq> [] \<longrightarrow>
           query_foursquare pdist fs_get p threshold (Some key) (foursquare_insert_cache k v (w\<lparr>FS_CACHE := cache\<rparr>))
             = (Inr v, foursquare_insert_cache k v (w\<lparr>FS_CACHE := cache\<rparr>)))
       \<and> requests (snd (query_google pdist gg_get p threshold (Some key)
                          (google_insert_cache k [] (w\<lparr>GG_CACHE := cache\<rparr>))))
           = requests w @ [GoogleGet (lat p) (lon p) threshold key]
       \<and> requests (snd (query_foursquare pdist fs_get p threshold (Some key)
                          (foursquare_insert_cache k [] (w\<lparr>FS_CACHE := cache\<rparr>))))
           = requests w @ [FoursquareGet (lat p) (lon p) threshold key]"
proof -
  have hit: "from_cache pdist (dict_set cache k u) p threshold = Some u" for u :: "candidate list"
    using assms(1,2) by (rule from_cache_after_insert)
  have a: "from_cache pdist (dict_set cache k v) p threshold = Some v" by (rule hit)
  have b: "query_google pdist gg_get p threshold (Some key) (google_insert_cache k v (w\<lparr>GG_CACHE := cache\<rparr>))
             = (Inr v, google_insert_cache k v (w\<lparr>GG_CACHE := cache\<rparr>))" if "v \<noteq> []"
    using that assms(3) hit [of v]
    by (cases v) (simp_all add: query_google_def google_insert_cache_def)
  have c: "query_foursquare pdist fs_get p threshold (Some key) (foursquare_insert_cache k v (w\<lparr>FS_CACHE := cache\<rparr>))
             = (Inr v, foursquare_insert_cache k v (w\<lparr>FS_CACHE := cache\<rparr>))" if "v \<noteq> []"
    using that assms(3) hit [of v]
    by (cases v) (simp_all add: query_foursquare_def foursquare_insert_cache_def)
  have d: "requests (snd (query_google pdist gg_get p threshold (Some key)
                          (google_insert_cache k [] (w\<lparr>GG_CACHE := cache\<rparr>))))
           = requests w @ [GoogleGet (lat p) (lon p) threshold key]"
    using assms(3) hit [of "[]"]
    by (simp add: query_google_def google_insert_cache_def Let_def split: option.splits)
  have e: "requests (snd (query_foursquare pdist fs_get p threshold (Some key)
                          (foursquare_insert_cache k [] (w\<lparr>FS_CACHE := cache\<rparr>))))
           = requests w @ [FoursquareGet (lat p) (lon p) threshold key]"
    using assms(3) hit [of "[]"]
    by (simp add: query_foursquare_def foursquare_insert_cache_def Let_def split: option.splits)
  from a b c d e show ?thesis by blast
qed

theorem insert_then_lookup_witness:
  "line_distance (at_lat 0) (at_lat 2) < 10
   \<and> takeWhile (\<lambda>x. x \<noteq> at_lat 2) (dict_keys [(at_lat 50, [place ''far'' 50 GOOGLE])]) = [at_lat 50]
   \<and> \<not> line_distance (at_lat 0) (at_lat 50) < 10
   \<and> from_cache line_distance
        (dict_set [(at_lat 50, [place ''far'' 50 GOOGLE])] (at_lat 2) [place ''new'' 2 GOOGLE])
        (at_lat 0) 10 = Some [place ''new'' 2 GOOGLE]"
proof -
  have h1: "line_distance (at_lat 0) (at_lat 2) < 10"
    by (simp add: line_distance_def at_lat_def)
  have h2: "\<forall>k' \<in> set (takeWhile (\<lambda>x. x \<noteq> at_lat 2) (dict_keys [(at_lat 50, [place ''far'' 50 GOOGLE])])).
         \<not> line_distance (at_lat 0) k' < 10"
    by (simp add: line_distance_def at_lat_def dict_keys_def)
  have h3: "''k'' \<noteq> []" by simp
  have "from_cache line_distance
        (dict_set [(at_lat 50, [place ''far'' 50 GOOGLE])] (at_lat 2) [place ''new'' 2 GOOGLE])
        (at_lat 0) 10 = Some [place ''new'' 2 GOOGLE]"
    using insert_then_lookup [where pdist = line_distance and p = "at_lat 0" and k = "at_lat 2"
        and threshold = 10 and cache = "[(at_lat 50, [place ''far'' 50 GOOGLE])]"
        and key = "''k''" and v = "[place ''new'' 2 GOOGLE]"] h1 h2 h3
    by blast
  moreover have "takeWhile (\<lambda>x. x \<noteq> at_lat 2) (dict_keys [(at_lat 50, [place ''far'' 50 GOOGLE])]) = [at_lat 50]"
    by (simp add: at_lat_def dict_keys_def)
  moreover have "\<not> line_distance (at_lat 0) (at_lat 50) < 10"
    by (simp add: line_distance_def at_lat_def)
  ultimately show ?thesis using h1 by blast
qed

text \<open>
  The claim as written fails when an older key is within the threshold too: the scan
  stops at the older key, so the list just stored is not what the lookup returns, and
  storing an empty list does not make the lookup a miss.
\<close>

theorem insert_then_lookup_counterexample:
  "line_distance (at_lat 0) (at_lat 2) < 10
   \<and> from_cache line_distance
        (dict_set [(at_lat 1, [place ''old'' 1 GOOGLE])] (at_lat 2) [place ''new'' 2 GOOGLE])
        (at_lat 0) 10 = Some [place ''old'' 1 GOOGLE]
   \<and> [place ''old'' 1 GOOGLE] \<noteq> [place ''new'' 2 GOOGLE]
   \<and> from_cache line_distance
        (dict_set [(at_lat 1, [place ''old'' 1 GOOGLE])] (at_lat 2) [])
        (at_lat 0) 10 = Some [place ''old'' 1 GOOGLE]"
  by (simp add: line_distance_def at_lat_def from_cache_def dict_keys_def place_def)





section \<open>Properties of \<open>infer_location\<close>\<close>

lemma length_kb_locations:
  "length (kb_locations pdist (Some q) p max_distance) = length (q p max_distance)"
  by (simp add: kb_locations_def)

text \<open>
  Claim C10. When the knowledge base returns at least one candidate and the limit is 0,
  \<open>infer_location\<close> ends with an \<open>IndexError\<close>: the providers are not asked, the
  list is cut to nothing and its first element is read.
\<close>

theorem infer_location_limit_zero:
  assumes "q p max_distance \<noteq> []"
  shows "infer_location pdist gg_get fs_get p (Some q) max_distance
           use_google google_key use_foursquare foursquare_key 0 w = (Inl IndexError, w)"
proof -
  let ?kb = "kb_locations pdist (Some q) p max_distance"
  have len: "0 < length ?kb"
    using assms by (simp add: length_kb_locations)
  then have "query_providers pdist gg_get fs_get p ?kb max_distance
           use_google google_key use_foursquare foursquare_key 0 w = (Inr [], w)"
    by (simp add: query_providers_def)
  moreover have "rank_locations p ?kb [] 0 = Inl IndexError"
    using len by (simp add: rank_locations_def slice_to_def)
  ultimately show ?thesis
    by (simp add: infer_location_def)
qed

theorem infer_location_limit_zero_witness:
  "(\<lambda>p r. [(''home'', at_lat 10, ())]) (at_lat 0) 100 \<noteq> []
   \<and> infer_location line_distance
        (\<lambda>u. \<lparr>status_code = 200, json = Some []\<rparr>) (\<lambda>u. \<lparr>status_code = 200, json = Some []\<rparr>)
        (at_lat 0) (Some (\<lambda>p r. [(''home'', at_lat 10, ())])) 100
        True (Some ''g'') True (Some ''f'') 0 empty_world
      = (Inl IndexError :: error + unit location, empty_world)"
proof -
  have h: "(\<lambda>p r. [(''home'', at_lat 10, ())]) (at_lat 0) (100::real) \<noteq> []" by simp
  from infer_location_limit_zero [of "\<lambda>p r. [(''home'', at_lat 10, ())]" "at_lat 0" 100, OF h] h
  show ?thesis by blast
qed

text \<open>
  Claim C1, amended. With knowledge-base candidates at distances 50 and 10, API
  candidates at distances 5 and 30 and the limit 3, the alternatives are the
  knowledge-base candidates in ascending order followed by the closest API candidate,
  that is KB at 10, KB at 50, API at 5; the label is that of the KB candidate at 10.
\<close>

theorem infer_location_merge_order:
  assumes "kb_locations pdist location_query p max_distance = [a, b]"
    and "distance a = 50" and "distance b = 10"
    and "query_providers pdist gg_get fs_get p [a, b] max_distance
           use_google google_key use_foursquare foursquare_key 3 w = (Inr [c, d], w')"
    and "distance c = 5" and "distance d = 30"
  shows "infer_location pdist gg_get fs_get p location_query max_distance
           use_google google_key use_foursquare foursquare_key 3 w
         = (Inr \<lparr>loc_label = label b, centroid = PointObj p, other = [b, a, c], debug = False\<rparr>, w')"
  using assms
  by (simp add: infer_location_def rank_locations_def slice_to_def)


lemmas run_simps =
  infer_location_def kb_locations_def query_providers_def truthy_key_def
  query_foursquare_def query_google_def from_cache_def dict_keys_def empty_world_def
  rank_locations_def slice_to_def foursquare_insert_cache_def google_insert_cache_def
  line_distance_def at_lat_def Let_def

theorem infer_location_merge_order_witness:
  "infer_location line_distance
        (\<lambda>u. \<lparr>status_code = 200, json = Some []\<rparr>)
        (\<lambda>u. \<lparr>status_code = 200, json = Some
            [\<lparr>fs_name = ''bar'', fs_distance = 5, fs_categories = []\<rparr>,
             \<lparr>fs_name = ''zoo'', fs_distance = 30, fs_categories = []\<rparr>]\<rparr>)
        (at_lat 0) (Some (\<lambda>p r. [(''work'', at_lat 50, ()), (''home'', at_lat 10, ())])) 100
        False None True (Some ''f'') 3 empty_world
    = (Inr \<lparr>loc_label = ''home'', centroid = PointObj (at_lat 0) :: unit position,
            other = [\<lparr>label = ''home'', distance = 10, types = None, suggestion_type = KB\<rparr>,
                     \<lparr>label = ''work'', distance = 50, types = None, suggestion_type = KB\<rparr>,
                     place ''bar'' 5 FOURSQUARE],
            debug = False\<rparr>,
       \<lparr>GG_CACHE = [],
        FS_CACHE = [(at_lat 0, [place ''bar'' 5 FOURSQUARE, place ''zoo'' 30 FOURSQUARE])],
        requests = [FoursquareGet 0 0 100 ''f'']\<rparr>)"
proof -
  let ?q = "Some (\<lambda>p r. [(''work'', at_lat 50, ()), (''home'', at_lat 10, ())])"
  let ?a = "\<lparr>label = ''work'', distance = 50, types = None, suggestion_type = KB\<rparr>"
  let ?b = "\<lparr>label = ''home'', distance = 10, types = None, suggestion_type = KB\<rparr>"
  let ?fs = "\<lambda>u::request. \<lparr>status_code = 200, json = Some
            [\<lparr>fs_name = ''bar'', fs_distance = 5, fs_categories = []\<rparr>,
             \<lparr>fs_name = ''zoo'', fs_distance = 30, fs_categories = []\<rparr>]\<rparr>"
  let ?gg = "\<lambda>u::request. \<lparr>status_code = 200, json = Some ([] :: gg_place list)\<rparr>"
  let ?w' = "\<lparr>GG_CACHE = [],
        FS_CACHE = [(at_lat 0, [place ''bar'' 5 FOURSQUARE, place ''zoo'' 30 FOURSQUARE])],
        requests = [FoursquareGet 0 0 100 ''f'']\<rparr>"
  have h1: "kb_locations line_distance ?q (at_lat 0) 100 = [?a, ?b]"
    by (simp add: kb_locations_def line_distance_def at_lat_def)
  have h2: "distance ?a = 50" by simp
  have h3: "distance ?b = 10" by simp
  have h4: "query_providers line_distance ?gg ?fs (at_lat 0) [?a, ?b] 100
              False None True (Some ''f'') 3 empty_world
            = (Inr [place ''bar'' 5 FOURSQUARE, place ''zoo'' 30 FOURSQUARE], ?w')"
    by (simp add: query_providers_def truthy_key_def query_foursquare_def from_cache_def
        dict_keys_def empty_world_def foursquare_insert_cache_def at_lat_def place_def Let_def)
  have h5: "distance (place ''bar'' 5 FOURSQUARE) = 5" by (simp add: place_def)
  have h6: "distance (place ''zoo'' 30 FOURSQUARE) = 30" by (simp add: place_def)
  from infer_location_merge_order [OF h1 h2 h3 h4 h5 h6]
  show ?thesis by simp
qed

text \<open>
  The order KB at 10, API at 5, API at 30 is not what the code returns: the
  knowledge-base candidate at 50 stands before every API candidate.
\<close>

theorem infer_location_merge_order_counterexample:
  "fst (infer_location line_distance
        (\<lambda>u. \<lparr>status_code = 200, json = Some []\<rparr>)
        (\<lambda>u. \<lparr>status_code = 200, json = Some
            [\<lparr>fs_name = ''bar'', fs_distance = 5, fs_categories = []\<rparr>,
             \<lparr>fs_name = ''zoo'', fs_distance = 30, fs_categories = []\<rparr>]\<rparr>)
        (at_lat 0) (Some (\<lambda>p r. [(''work'', at_lat 50, ()), (''home'', at_lat 10, ())])) 100
        False None True (Some ''f'') 3 empty_world)
    = Inr \<lparr>loc_label = ''home'', centroid = PointObj (at_lat 0) :: unit position,
            other = [\<lparr>label = ''home'', distance = 10, types = None, suggestion_type = KB\<rparr>,
                     \<lparr>label = ''work'', distance = 50, types = None, suggestion_type = KB\<rparr>,
                     place ''bar'' 5 FOURSQUARE],
            debug = False\<rparr>
   \<and> [\<lparr>label = ''home'', distance = 10, types = None, suggestion_type = KB\<rparr>,
       \<lparr>label = ''work'', distance = 50, types = None, suggestion_type = KB\<rparr>,
       place ''bar'' 5 FOURSQUARE]
     \<noteq> [\<lparr>label = ''home'', distance = 10, types = None, suggestion_type = KB\<rparr>,
        place ''bar'' 5 FOURSQUARE,
        place ''zoo'' 30 FOURSQUARE]"
  by (simp add: run_simps place_def)

lemma slice_to_is_take: "\<exists>m. slice_to xs n = take m xs"
  by (auto simp: slice_to_def)

lemma sorted_take_prefix:
  assumes "sorted (map f ks)" and "length ks = n"
  shows "sorted (map f (take n (take m (ks @ as))))"
proof -
  have "take n (take m (ks @ as)) = take (min n m) (ks @ as)"
    by (simp only: take_take)
  also have "\<dots> = take (min n m) ks"
    using assms(2) by simp
  finally have eq: "take n (take m (ks @ as)) = take (min n m) ks" .
  have "sorted (take (min n m) (map f ks))"
    using assms(1) by (rule sorted_wrt_take)
  then show ?thesis
    unfolding eq by (simp only: take_map)
qed

lemma sorted_drop_suffix:
  assumes "sorted (map f as)" and "length ks = n"
  shows "sorted (map f (drop n (take m (ks @ as))))"
proof -
  have "drop n (take m (ks @ as)) = take (m - n) (drop n (ks @ as))"
    by (rule drop_take)
  also have "\<dots> = take (m - n) as"
    using assms(2) by simp
  finally have eq: "drop n (take m (ks @ as)) = take (m - n) as" .
  have "sorted (take (m - n) (map f as))"
    using assms(1) by (rule sorted_wrt_take)
  then show ?thesis
    unfolding eq by (simp only: take_map)
qed

lemma rank_locations_shape:
  assumes "rank_locations p kb api limit = Inr loc"
  shows "sorted (map distance (take (length kb) (other loc)))
       \<and> sorted (map distance (drop (length kb) (other loc)))
       \<and> (kb \<noteq> [] \<longrightarrow> other loc \<noteq> [] \<and> loc_label loc = label (other loc ! 0))
       \<and> (kb = [] \<longrightarrow> loc_label loc = ''#?'')"
proof (cases "kb = []")
  case True
  with assms have "other loc = sort_key distance api" and "loc_label loc = ''#?''"
    by (auto simp: rank_locations_def)
  with True show ?thesis by simp
next
  case False
  let ?ks = "sort_key distance kb"
  let ?as = "sort_key distance api"
  obtain m where m: "slice_to (?ks @ ?as) limit = take m (?ks @ ?as)"
    using slice_to_is_take by blast
  have api: "(if 0 < length api then sort_key distance api else api) = ?as" by simp
  from assms False obtain first rest where
      cut: "take m (?ks @ ?as) = first # rest"
      and loc: "loc = \<lparr>loc_label = label first, centroid = PointObj p,
                       other = take m (?ks @ ?as), debug = False\<rparr>"
    unfolding rank_locations_def api Let_def m
    by (auto split: list.splits)
  have o: "other loc = take m (?ks @ ?as)" using loc by simp
  have "sorted (map distance (take (length kb) (other loc)))"
    unfolding o by (rule sorted_take_prefix) simp_all
  moreover have "sorted (map distance (drop (length kb) (other loc)))"
    unfolding o by (rule sorted_drop_suffix) simp_all
  moreover have "other loc \<noteq> [] \<and> loc_label loc = label (other loc ! 0)"
    using loc cut by simp
  ultimately show ?thesis using False by simp
qed

text \<open>
  Claim C2, amended. In every Location that \<open>infer_location\<close> returns, the
  alternatives are two runs, each sorted ascending by distance: the first of at most as
  many entries as the knowledge base gave, the second after it. When the knowledge base
  gave candidates the alternatives are not empty and the label is that of the first; when
  it gave none the label is the sentinel \<open>#?\<close>.
\<close>

theorem infer_location_alternatives:
  assumes "infer_location pdist gg_get fs_get p location_query max_distance
             use_google google_key use_foursquare foursquare_key limit w = (Inr loc, w')"
  shows "sorted (map distance
           (take (length (kb_locations pdist location_query p max_distance)) (other loc)))
       \<and> sorted (map distance
           (drop (length (kb_locations pdist location_query p max_distance)) (other loc)))
       \<and> (kb_locations pdist location_query p max_distance \<noteq> [] \<longrightarrow>
            other loc \<noteq> [] \<and> loc_label loc = label (other loc ! 0))
       \<and> (kb_locations pdist location_query p max_distance = [] \<longrightarrow> loc_label loc = ''#?'')"
proof -
  let ?kb = "kb_locations pdist location_query p max_distance"
  obtain r w1 where qp: "query_providers pdist gg_get fs_get p ?kb max_distance
             use_google google_key use_foursquare foursquare_key limit w = (r, w1)"
    by (cases "query_providers pdist gg_get fs_get p ?kb max_distance
             use_google google_key use_foursquare foursquare_key limit w")
  with assms obtain api where "rank_locations p ?kb api limit = Inr loc"
    by (cases r) (auto simp: infer_location_def)
  then show ?thesis by (rule rank_locations_shape)
qed

theorem infer_location_alternatives_witness:
  "sorted (map distance (take 1
       [\<lparr>label = ''home'', distance = 20, types = None, suggestion_type = KB\<rparr>,
        \<lparr>label = ''cafe'', distance = 3, types = Some [], suggestion_type = GOOGLE\<rparr>]))
   \<and> infer_location line_distance
        (\<lambda>u. \<lparr>status_code = 200, json = Some
            [\<lparr>gg_name = ''cafe'', gg_lat = 3, gg_lng = 0, gg_types = []\<rparr>]\<rparr>)
        (\<lambda>u. \<lparr>status_code = 200, json = Some []\<rparr>)
        (at_lat 0) (Some (\<lambda>p r. [(''home'', at_lat 20, ())])) 100
        True (Some ''g'') False None 5 empty_world
     = (Inr \<lparr>loc_label = ''home'', centroid = PointObj (at_lat 0) :: unit position,
            other = [\<lparr>label = ''home'', distance = 20, types = None, suggestion_type = KB\<rparr>,
                     \<lparr>label = ''cafe'', distance = 3, types = Some [], suggestion_type = GOOGLE\<rparr>],
            debug = False\<rparr>,
        \<lparr>GG_CACHE = [(at_lat 0,
            [\<lparr>label = ''cafe'', distance = 3, types = Some [], suggestion_type = GOOGLE\<rparr>])],
         FS_CACHE = [], requests = [GoogleGet 0 0 100 ''g'']\<rparr>)"
proof -
  have run: "infer_location line_distance
        (\<lambda>u. \<lparr>status_code = 200, json = Some
            [\<lparr>gg_name = ''cafe'', gg_lat = 3, gg_lng = 0, gg_types = []\<rparr>]\<rparr>)
        (\<lambda>u. \<lparr>status_code = 200, json = Some []\<rparr>)
        (at_lat 0) (Some (\<lambda>p r. [(''home'', at_lat 20, ())])) 100
        True (Some ''g'') False None 5 empty_world
     = (Inr \<lparr>loc_label = ''home'', centroid = PointObj (at_lat 0) :: unit position,
            other = [\<lparr>label = ''home'', distance = 20, types = None, suggestion_type = KB\<rparr>,
                     \<lparr>label = ''cafe'', distance = 3, types = Some [], suggestion_type = GOOGLE\<rparr>],
            debug = False\<rparr>,
        \<lparr>GG_CACHE = [(at_lat 0,
            [\<lparr>label = ''cafe'', distance = 3, types = Some [], suggestion_type = GOOGLE\<rparr>])],
         FS_CACHE = [], requests = [GoogleGet 0 0 100 ''g'']\<rparr>)"
    by (simp add: run_simps)
  from infer_location_alternatives [OF run] run show ?thesis
    by (simp add: kb_locations_def)
qed

text \<open>
  The alternatives as a whole need not be sorted, and with no knowledge-base candidate
  the label is the sentinel although the alternatives are not empty.
\<close>

theorem infer_location_alternatives_counterexample:
  "(case fst (infer_location line_distance
        (\<lambda>u. \<lparr>status_code = 200, json = Some
            [\<lparr>gg_name = ''cafe'', gg_lat = 3, gg_lng = 0, gg_types = []\<rparr>]\<rparr>)
        (\<lambda>u. \<lparr>status_code = 200, json = Some []\<rparr>)
        (at_lat 0) (Some (\<lambda>p r. [(''home'', at_lat 20, ())])) 100
        True (Some ''g'') False None 5 empty_world) :: error + unit location of
      Inl e \<Rightarrow> False
    | Inr loc \<Rightarrow> map distance (other loc) = [20, 3] \<and> \<not> sorted (map distance (other loc)))
   \<and> (case fst (infer_location line_distance
        (\<lambda>u. \<lparr>status_code = 200, json = Some
            [\<lparr>gg_name = ''cafe'', gg_lat = 3, gg_lng = 0, gg_types = []\<rparr>]\<rparr>)
        (\<lambda>u. \<lparr>status_code = 200, json = Some []\<rparr>)
        (at_lat 0) (None :: (point \<Rightarrow> real \<Rightarrow> (string \<times> point \<times> unit) list) option) 100
        True (Some ''g'') False None 5 empty_world) :: error + unit location of
      Inl e \<Rightarrow> False
    | Inr loc \<Rightarrow> other loc \<noteq> [] \<and> loc_label loc = ''#?''
          \<and> label (other loc ! 0) = ''cafe'' \<and> loc_label loc \<noteq> label (other loc ! 0))"
  by (simp add: run_simps)

section \<open>Properties of the centroid update\<close>

lemma dict_keys_dict_append: "dict_keys (dict_append d k x) = dict_keys d"
  by (induction d) (auto simp: dict_keys_def dict_append_def)

lemma group_by_label_total:
  "i + length ls \<le> length points \<Longrightarrow> \<exists>cs. group_by_label ls i points clusters = Inr cs"
  by (induction ls arbitrary: i clusters) auto

lemma group_by_label_keys:
  "group_by_label ls i points clusters = Inr cs \<Longrightarrow>
     set (dict_keys cs) \<subseteq> set (dict_keys clusters) \<union> set ls"
proof (induction ls arbitrary: i clusters)
  case Nil
  then show ?case by simp
next
  case (Cons l ls)
  from Cons.prems have i: "i < length points" by (simp split: if_splits)
  show ?case
  proof (cases "l \<in> set (dict_keys clusters)")
    case True
    with Cons.prems i
    have "group_by_label ls (Suc i) points (dict_append clusters l (points ! i)) = Inr cs"
      by simp
    from Cons.IH [OF this] show ?thesis
      by (auto simp: dict_keys_dict_append)
  next
    case False
    with Cons.prems i
    have "group_by_label ls (Suc i) points (dict_set clusters l [points ! i]) = Inr cs"
      by simp
    from Cons.IH [OF this] show ?thesis
      by (auto simp: dict_keys_dict_set split: if_splits)
  qed
qed

lemma select_biggest_noise:
  "\<forall>x \<in> set cls. fst x < 0 \<Longrightarrow> snd (snd (select_biggest cls (cs, bl, b))) = b"
  by (induction cls arbitrary: cs) (auto simp: Let_def)

lemma select_biggest_keep:
  "\<forall>x \<in> set cls. 0 \<le> fst x \<longrightarrow> length (snd x) < m \<Longrightarrow>
     snd (snd (select_biggest cls (cs, Some m, b))) = b"
  by (induction cls arbitrary: cs) (auto simp: Let_def)

lemma select_biggest_last_max:
  assumes "j < length cls"
    and "0 \<le> fst (cls ! j)"
    and "\<forall>i<length cls. 0 \<le> fst (cls ! i) \<longrightarrow> length (snd (cls ! i)) \<le> length (snd (cls ! j))"
    and "\<forall>i<length cls. j < i \<and> 0 \<le> fst (cls ! i) \<longrightarrow> length (snd (cls ! i)) < length (snd (cls ! j))"
    and "ge_biggest (length (snd (cls ! j))) bl"
  shows "snd (snd (select_biggest cls (cs, bl, b))) = Some (compute_centroid (snd (cls ! j)))"
  using assms
proof (induction cls arbitrary: j cs bl b)
  case Nil
  then show ?case by simp
next
  case (Cons x cls)
  obtain l c where x: "x = (l, c)" by (cases x)
  show ?case
  proof (cases j)
    case 0
    have "\<forall>y \<in> set cls. 0 \<le> fst y \<longrightarrow> length (snd y) < length c"
    proof
      fix y assume "y \<in> set cls"
      then obtain i where i: "i < length cls" "cls ! i = y"
        by (auto simp: in_set_conv_nth)
      with Cons.prems(4) [rule_format, of "Suc i"] 0 x
      show "0 \<le> fst y \<longrightarrow> length (snd y) < length c" by auto
    qed
    then have "snd (snd (select_biggest cls (cs @ [compute_centroid c], Some (length c),
                  Some (compute_centroid c)))) = Some (compute_centroid c)"
      by (rule select_biggest_keep)
    with Cons.prems(2,5) 0 x show ?thesis by (simp add: Let_def)
  next
    case (Suc n)
    have n: "n < length cls" using Cons.prems(1) Suc by simp
    have p2: "0 \<le> fst (cls ! n)" using Cons.prems(2) Suc by simp
    have p3: "\<forall>i<length cls. 0 \<le> fst (cls ! i) \<longrightarrow> length (snd (cls ! i)) \<le> length (snd (cls ! n))"
    proof (intro allI impI)
      fix i assume "i < length cls" "0 \<le> fst (cls ! i)"
      with Cons.prems(3) [rule_format, of "Suc i"] Suc
      show "length (snd (cls ! i)) \<le> length (snd (cls ! n))" by simp
    qed
    have p4: "\<forall>i<length cls. n < i \<and> 0 \<le> fst (cls ! i) \<longrightarrow> length (snd (cls ! i)) < length (snd (cls ! n))"
    proof (intro allI impI)
      fix i assume "i < length cls" "n < i \<and> 0 \<le> fst (cls ! i)"
      with Cons.prems(4) [rule_format, of "Suc i"] Suc
      show "length (snd (cls ! i)) < length (snd (cls ! n))" by simp
    qed
    have old: "ge_biggest (length (snd (cls ! n))) bl" using Cons.prems(5) Suc by simp
    have new: "ge_biggest (length (snd (cls ! n))) (Some (length c))" if "0 \<le> l"
      using Cons.prems(3) [rule_format, of 0] that x Suc by simp
    show ?thesis
    proof (cases "0 \<le> l \<and> ge_biggest (length c) bl")
      case True
      then have "snd (snd (select_biggest (x # cls) (cs, bl, b)))
          = snd (snd (select_biggest cls (cs @ [compute_centroid c], Some (length c),
                  Some (compute_centroid c))))"
        using x by (simp add: Let_def)
      also have "\<dots> = Some (compute_centroid (snd (cls ! n)))"
        using n p2 p3 p4 new True by (intro Cons.IH) auto
      finally show ?thesis using Suc by simp
    next
      case False
      then have "snd (snd (select_biggest (x # cls) (cs, bl, b)))
          = snd (snd (select_biggest cls (cs @ [compute_centroid c], bl, b)))"
        using x by (auto simp: Let_def)
      also have "\<dots> = Some (compute_centroid (snd (cls ! n)))"
        using n p2 p3 p4 old by (intro Cons.IH) auto
      finally show ?thesis using Suc by simp
    qed
  qed
qed

lemma compute_centroid_points:
  "compute_centroid (map gen2arr ps) =
     \<lparr>lat = sum_list (map lat ps) / real (length ps),
      lon = sum_list (map lon ps) / real (length ps), time = None\<rparr>"
  by (simp add: compute_centroid_def np_mean_def gen2arr_def comp_def)


lemma update_location_centroid_unfold:
  "update_location_centroid estimate_meters_to_deg dbscan_labels p cluster max_distance min_samples
     = (case group_by_label (dbscan_labels (estimate_meters_to_deg max_distance) min_samples
               (map gen2arr (cluster @ [p]))) 0 (map gen2arr (cluster @ [p])) [] of
          Inl e \<Rightarrow> Inl e
        | Inr clusters \<Rightarrow>
            Inr (case snd (snd (select_biggest clusters ([], None, None))) of
                   None \<Rightarrow> compute_centroid (map gen2arr (cluster @ [p]))
                 | Some c \<Rightarrow> c,
                 cluster @ [p]))"
  by (simp add: update_location_centroid_def Let_def split: sum.splits prod.splits option.splits)

text \<open>
  Claim C4. Provided the clustering gives one label per point, the update returns a
  centroid and the history with the new point appended, never an error. When every
  label is negative (noise), the centroid is the arithmetic mean of the latitudes and of
  the longitudes of all the points of the extended history.
\<close>

theorem update_location_centroid_all_noise:
  assumes "length (dbscan_labels (estimate_meters_to_deg max_distance) min_samples
             (map gen2arr (cluster @ [p]))) = length (cluster @ [p])"
  shows "(\<exists>c. update_location_centroid estimate_meters_to_deg dbscan_labels p cluster
                max_distance min_samples = Inr (c, cluster @ [p]))
       \<and> ((\<forall>l \<in> set (dbscan_labels (estimate_meters_to_deg max_distance) min_samples
                        (map gen2arr (cluster @ [p]))). l < 0) \<longrightarrow>
            update_location_centroid estimate_meters_to_deg dbscan_labels p cluster
                max_distance min_samples
            = Inr (\<lparr>lat = sum_list (map lat (cluster @ [p])) / real (length (cluster @ [p])),
                    lon = sum_list (map lon (cluster @ [p])) / real (length (cluster @ [p])),
                    time = None\<rparr>,
                   cluster @ [p]))"
proof -
  let ?points = "map gen2arr (cluster @ [p])"
  let ?labels = "dbscan_labels (estimate_meters_to_deg max_distance) min_samples ?points"
  have "0 + length ?labels \<le> length ?points" using assms by simp
  then obtain clusters where g: "group_by_label ?labels 0 ?points [] = Inr clusters"
    using group_by_label_total by blast
  note u = update_location_centroid_unfold
  have first: "\<exists>c. update_location_centroid estimate_meters_to_deg dbscan_labels p cluster
                max_distance min_samples = Inr (c, cluster @ [p])"
    unfolding u g by simp
  have second: "update_location_centroid estimate_meters_to_deg dbscan_labels p cluster
                max_distance min_samples
            = Inr (\<lparr>lat = sum_list (map lat (cluster @ [p])) / real (length (cluster @ [p])),
                    lon = sum_list (map lon (cluster @ [p])) / real (length (cluster @ [p])),
                    time = None\<rparr>,
                   cluster @ [p])"
    if noise: "\<forall>l \<in> set ?labels. l < 0"
  proof -
    have "set (dict_keys clusters) \<subseteq> set (dict_keys ([] :: (int, arr list) dict)) \<union> set ?labels"
      using g by (rule group_by_label_keys)
    with noise have "\<forall>x \<in> set clusters. fst x < 0"
      by (auto simp: dict_keys_def)
    then have "snd (snd (select_biggest clusters ([], None, None))) = None"
      by (rule select_biggest_noise)
    then show ?thesis
      unfolding u g by (simp only: sum.case option.case compute_centroid_points)
  qed
  from first second show ?thesis by blast
qed

theorem update_location_centroid_all_noise_witness:
  "length ((\<lambda>eps n ps. [-1, -1, -1]) ((\<lambda>m. m / 100000) 10) 2
       (map gen2arr ([at_lat 1, at_lat 5] @ [at_lat 12]))) = length ([at_lat 1, at_lat 5] @ [at_lat 12])
   \<and> update_location_centroid (\<lambda>m. m / 100000) (\<lambda>eps n ps. [-1, -1, -1])
        (at_lat 12) [at_lat 1, at_lat 5] 10 2
      = Inr (at_lat 6, [at_lat 1, at_lat 5, at_lat 12])"
proof -
  have h: "length ((\<lambda>eps n ps. [-1, -1, -1::int]) ((\<lambda>m::real. m / 100000) 10) (2::int)
       (map gen2arr ([at_lat 1, at_lat 5] @ [at_lat 12]))) = length ([at_lat 1, at_lat 5] @ [at_lat 12])"
    by simp
  from update_location_centroid_all_noise [of "\<lambda>eps n ps. [-1, -1, -1]" "\<lambda>m. m / 100000" 10 2
      "[at_lat 1, at_lat 5]" "at_lat 12", OF h]
  show ?thesis by (simp add: at_lat_def)
qed

text \<open>
  Claim C3, amended. Among the clusters with a non-negative label, in the iteration
  order of the dictionary (the order in which the labels first occur), the centroid
  returned is that of the last cluster of maximal size: a later cluster of the same size
  replaces an earlier one.
\<close>

theorem update_location_centroid_last_largest:
  assumes "group_by_label (dbscan_labels (estimate_meters_to_deg max_distance) min_samples
             (map gen2arr (cluster @ [p]))) 0 (map gen2arr (cluster @ [p])) [] = Inr clusters"
    and "j < length clusters"
    and "0 \<le> fst (clusters ! j)"
    and "\<forall>i<length clusters. 0 \<le> fst (clusters ! i) \<longrightarrow>
           length (snd (clusters ! i)) \<le> length (snd (clusters ! j))"
    and "\<forall>i<length clusters. j < i \<and> 0 \<le> fst (clusters ! i) \<longrightarrow>
           length (snd (clusters ! i)) < length (snd (clusters ! j))"
  shows "update_location_centroid estimate_meters_to_deg dbscan_labels p cluster max_distance min_samples
       = Inr (compute_centroid (snd (clusters ! j)), cluster @ [p])"
proof -
  have "ge_biggest (length (snd (clusters ! j))) None" by simp
  with assms(2-5)
  have "snd (snd (select_biggest clusters ([], None, None)))
          = Some (compute_centroid (snd (clusters ! j)))"
    by (rule select_biggest_last_max)
  then show ?thesis
    unfolding update_location_centroid_unfold assms(1) by simp
qed


theorem update_location_centroid_last_largest_witness:
  "update_location_centroid (\<lambda>m. m) (\<lambda>eps n ps. [0, 0, 1, 1])
        (at_lat 32) [at_lat 10, at_lat 12, at_lat 30] 5 2
      = Inr (at_lat 31, [at_lat 10, at_lat 12, at_lat 30, at_lat 32])"
proof -
  let ?clusters = "[(0::int, [(0::real, 10::real), (0, 12)]), (1, [(0, 30), (0, 32)])]"
  have g: "group_by_label ((\<lambda>eps n ps. [0, 0, 1, 1]) ((\<lambda>m::real. m) 5) (2::int)
             (map gen2arr ([at_lat 10, at_lat 12, at_lat 30] @ [at_lat 32])))
             0 (map gen2arr ([at_lat 10, at_lat 12, at_lat 30] @ [at_lat 32])) [] = Inr ?clusters"
    by (simp add: gen2arr_def at_lat_def dict_keys_def dict_append_def)
  have j: "1 < length ?clusters" by simp
  have l: "0 \<le> fst (?clusters ! 1)" by simp
  have m: "\<forall>i<length ?clusters. 0 \<le> fst (?clusters ! i) \<longrightarrow>
           length (snd (?clusters ! i)) \<le> length (snd (?clusters ! 1))"
    by (auto simp: less_Suc_eq)
  have s: "\<forall>i<length ?clusters. 1 < i \<and> 0 \<le> fst (?clusters ! i) \<longrightarrow>
           length (snd (?clusters ! i)) < length (snd (?clusters ! 1))"
    by (auto simp: less_Suc_eq)
  from update_location_centroid_last_largest [of "\<lambda>eps n ps. [0, 0, 1, 1]" "\<lambda>m. m" 5 2
      "[at_lat 10, at_lat 12, at_lat 30]" "at_lat 32" ?clusters 1, OF g j l m s]
  show ?thesis
    by (simp add: compute_centroid_def np_mean_def at_lat_def)
qed

text \<open>
  Two clusters of two points each: the first one reaches the maximal size first, yet the
  centroid returned is that of the second.
\<close>

theorem update_location_centroid_tie_counterexample:
  "group_by_label [0, 0, 1, 1] 0
       (map gen2arr [at_lat 10, at_lat 12, at_lat 30, at_lat 32]) []
     = Inr [(0, [(0, 10), (0, 12)]), (1, [(0, 30), (0, 32)])]
   \<and> compute_centroid [(0, 10), (0, 12)] = at_lat 11
   \<and> update_location_centroid (\<lambda>m. m) (\<lambda>eps n ps. [0, 0, 1, 1])
        (at_lat 32) [at_lat 10, at_lat 12, at_lat 30] 5 2
      = Inr (at_lat 31, [at_lat 10, at_lat 12, at_lat 30, at_lat 32])
   \<and> at_lat 31 \<noteq> at_lat 11"
  by (simp add: update_location_centroid_def gen2arr_def at_lat_def dict_keys_def
      dict_append_def compute_centroid_def np_mean_def Let_def)


section \<open>Serialisation of a Location\<close>

text \<open>
  Claim C9. Serialising a Location and reading the result back keeps the label and
  empties the alternatives, but the position does not come back as it was:
  \<open>from_json\<close> stores the JSON form of the point where the class documents a
  \<open>Point\<close>, so the centroid differs from the original and \<open>Location.distance\<close> on
  the result raises \<open>AttributeError\<close>.
\<close>

theorem to_json_from_json_position:
  "to_json point_to_json \<lparr>loc_label = l, centroid = PointObj c, other = alts, debug = d\<rparr>
     = Inr \<lparr>json_label = l, json_position = point_to_json c, json_other = alts\<rparr>
   \<and> from_json \<lparr>json_label = l, json_position = point_to_json c, json_other = alts\<rparr>
     = \<lparr>loc_label = l, centroid = JsonForm (point_to_json c), other = [], debug = False\<rparr>
   \<and> centroid (from_json \<lparr>json_label = l, json_position = point_to_json c, json_other = alts\<rparr>)
     \<noteq> centroid \<lparr>loc_label = l, centroid = PointObj c, other = alts, debug = d\<rparr>
   \<and> Location_distance pdist
        (from_json \<lparr>json_label = l, json_position = point_to_json c, json_other = alts\<rparr>) pos
     = Inl AttributeError"
  by (simp add: to_json_def from_json_def Location_distance_def)

end
